theory Spec2Isabelle
  imports Complex_Main
begin

section \<open>Species candidate location finder (run.py)\<close>

text \<open>
  A shallow embedding of \<^verbatim>\<open>run.py\<close>. Floating-point numbers are read as reals, Python
  integers as \<open>int\<close>, lists as lists. Every exception the modelled code can raise is a
  value of \<open>error\<close>, returned as \<open>Inl\<close>. The libraries the script calls (the GBIF web
  service, the Mersenne Twister behind \<^verbatim>\<open>np.random\<close>, rasterio's affine transform,
  scikit-learn's pipeline) are parameters of the model.
\<close>

subsection \<open>Errors and basic data\<close>

datatype error =
    ValueError string
  | IndexError string
  | HTTPError

text \<open>A coordinate pair is \<open>(lon, lat)\<close>; a bounding box is
  \<open>(min_lon, min_lat, max_lon, max_lat)\<close>.\<close>

type_synonym point = "real \<times> real"
type_synonym bbox = "real \<times> real \<times> real \<times> real"

subsection \<open>The process-wide random generator\<close>

text \<open>
  \<^verbatim>\<open>np.random\<close> keeps one generator for the whole process. Its state is the seed it was
  last seeded with and the number of samples drawn since; the parameter \<open>mt\<close> gives, for
  a seed, the sequence of unit samples the generator produces (\<open>mt s i\<close> is sample
  number \<open>i\<close> after seeding with \<open>s\<close>).
\<close>

record rng =
  seeded :: int
  drawn :: nat

type_synonym sampler = "int \<Rightarrow> nat \<Rightarrow> real"

text \<open>\<^verbatim>\<open>np.random.seed(seed)\<close>: the legacy seeding accepts \<open>0 \<le> seed < 2^32\<close> and
  raises \<^verbatim>\<open>ValueError\<close> otherwise; the previous state is discarded.\<close>

definition random_seed :: "int \<Rightarrow> rng \<Rightarrow> error + rng" where
  "random_seed seed g =
     (if 0 \<le> seed \<and> seed < 2 ^ 32 then Inr \<lparr>seeded = seed, drawn = 0\<rparr>
      else Inl (ValueError ''Seed must be between 0 and 2**32 - 1''))"

text \<open>\<^verbatim>\<open>np.random.uniform(low, high)\<close> is \<open>low + (high - low) * u\<close> for the next unit
  sample \<open>u\<close>.\<close>

definition uniform :: "sampler \<Rightarrow> real \<Rightarrow> real \<Rightarrow> rng \<Rightarrow> real \<times> rng" where
  "uniform mt low high g =
     (low + (high - low) * mt (seeded g) (drawn g), g\<lparr>drawn := Suc (drawn g)\<rparr>)"

subsection \<open>generate_negatives\<close>

text \<open>The local constant \<^verbatim>\<open>min_dist = 0.005\<close>.\<close>

definition min_dist :: real where
  "min_dist = 5 / 1000"

text \<open>
  \<^verbatim>\<open>dists = np.sqrt((pos_arr[:, 0] - lon)**2 + (pos_arr[:, 1] - lat)**2)\<close>.
  For an empty list of positives \<^verbatim>\<open>np.array([])\<close> is one-dimensional, and the slice
  \<^verbatim>\<open>pos_arr[:, 0]\<close> raises \<^verbatim>\<open>IndexError\<close>.
\<close>

definition dists :: "point list \<Rightarrow> real \<Rightarrow> real \<Rightarrow> error + real list" where
  "dists pos_arr lon lat =
     (if pos_arr = [] then Inl (IndexError ''too many indices for array'')
      else Inr (map (\<lambda>(px, py). sqrt ((px - lon)\<^sup>2 + (py - lat)\<^sup>2)) pos_arr))"

text \<open>\<^verbatim>\<open>dists.min()\<close>: the least element; numpy raises \<^verbatim>\<open>ValueError\<close> on an empty
  array.\<close>

fun amin :: "real list \<Rightarrow> error + real" where
  "amin [] = Inl (ValueError ''zero-size array to reduction operation minimum'')"
| "amin (d # ds) = Inr (fold min ds d)"

text \<open>
  The loop \<^verbatim>\<open>for _ in range(n_samples * 100)\<close>. The argument \<open>k\<close> is the number of
  iterations the range still has; one iteration either leaves the loop (enough
  negatives), or draws \<open>lon\<close> then \<open>lat\<close> and appends the pair when the least distance
  exceeds \<open>min_dist\<close>.
\<close>

fun negatives_loop ::
  "sampler \<Rightarrow> point list \<Rightarrow> bbox \<Rightarrow> int \<Rightarrow> nat \<Rightarrow> point list \<Rightarrow> rng \<Rightarrow> error + (point list \<times> rng)"
where
  "negatives_loop mt pos_arr bb n_samples 0 negatives g = Inr (negatives, g)"
| "negatives_loop mt pos_arr (min_lon, min_lat, max_lon, max_lat) n_samples (Suc k) negatives g =
     (if int (length negatives) \<ge> n_samples then Inr (negatives, g)
      else
        (case uniform mt min_lon max_lon g of (lon, g1) \<Rightarrow>
        (case uniform mt min_lat max_lat g1 of (lat, g2) \<Rightarrow>
        (case dists pos_arr lon lat of
           Inl e \<Rightarrow> Inl e
         | Inr ds \<Rightarrow>
            (case amin ds of
               Inl e \<Rightarrow> Inl e
             | Inr m \<Rightarrow>
                if m > min_dist
                then negatives_loop mt pos_arr (min_lon, min_lat, max_lon, max_lat) n_samples k
                       (negatives @ [(lon, lat)]) g2
                else negatives_loop mt pos_arr (min_lon, min_lat, max_lon, max_lat) n_samples k
                       negatives g2)))))"

text \<open>
  \<^verbatim>\<open>generate_negatives(positives, bbox, n_samples, seed)\<close>. The generator state \<open>g\<close> is
  the process-wide state at the call; the function returns the negatives and the state
  it leaves behind.
\<close>

definition generate_negatives ::
  "sampler \<Rightarrow> point list \<Rightarrow> bbox \<Rightarrow> int \<Rightarrow> int \<Rightarrow> rng \<Rightarrow> error + (point list \<times> rng)"
where
  "generate_negatives mt positives bb n_samples seed g =
     (case random_seed seed g of
        Inl e \<Rightarrow> Inl e
      | Inr g0 \<Rightarrow> negatives_loop mt positives bb n_samples (nat (n_samples * 100)) [] g0)"

subsection \<open>get_species_key and fetch_occurrences\<close>

text \<open>
  The species lookup: \<open>gbif_match name\<close> is the outcome of the request, either an HTTP
  error (\<^verbatim>\<open>raise_for_status\<close>) or the value of \<^verbatim>\<open>resp.json().get("usageKey")\<close>. A missing
  or zero key is falsy and raises \<^verbatim>\<open>ValueError\<close>.
\<close>

definition get_species_key :: "(string \<Rightarrow> error + int option) \<Rightarrow> string \<Rightarrow> error + int" where
  "get_species_key gbif_match species_name =
     (case gbif_match species_name of
        Inl e \<Rightarrow> Inl e
      | Inr None \<Rightarrow> Inl (ValueError ''Species not found'')
      | Inr (Some key) \<Rightarrow> if key = 0 then Inl (ValueError ''Species not found'') else Inr key)"

text \<open>
  An occurrence record of the service: the two coordinate fields, each present or not
  (\<^verbatim>\<open>r.get(...)\<close> is \<^verbatim>\<open>None\<close> for a missing field). One page of the search holds
  \<^verbatim>\<open>data.get("results", [])\<close> and \<^verbatim>\<open>data.get("count", 0)\<close>.
\<close>

record occurrence =
  decimalLatitude :: "real option"
  decimalLongitude :: "real option"

record page =
  page_results :: "occurrence list"
  page_count :: int

text \<open>Python truthiness of \<^verbatim>\<open>r.get(field)\<close>: \<^verbatim>\<open>None\<close> and \<^verbatim>\<open>0.0\<close> are falsy.\<close>

definition truthy :: "real option \<Rightarrow> bool" where
  "truthy v = (case v of None \<Rightarrow> False | Some x \<Rightarrow> x \<noteq> 0)"

text \<open>The paging loop \<^verbatim>\<open>while True\<close>; \<open>search offset\<close> is the outcome of the request at
  that offset. The loop need not end, so the result is optional.\<close>

partial_function (option) fetch_loop ::
  "(nat \<Rightarrow> error + page) \<Rightarrow> nat \<Rightarrow> occurrence list \<Rightarrow> (error + occurrence list) option"
where
  "fetch_loop search offset results =
     (case search offset of
        Inl e \<Rightarrow> Some (Inl e)
      | Inr data \<Rightarrow>
          if page_results data = [] then Some (Inr results)
          else if int (length (results @ page_results data)) \<ge> page_count data
               then Some (Inr (results @ page_results data))
               else fetch_loop search (offset + 300) (results @ page_results data))"

text \<open>The final comprehension of \<^verbatim>\<open>fetch_occurrences\<close>: the pairs
  \<open>(decimalLongitude, decimalLatitude)\<close> of the records whose two fields are truthy.\<close>

definition occurrence_coords :: "occurrence list \<Rightarrow> point list" where
  "occurrence_coords results =
     [(the (decimalLongitude r), the (decimalLatitude r)).
        r \<leftarrow> results, truthy (decimalLatitude r) \<and> truthy (decimalLongitude r)]"

definition fetch_occurrences :: "(nat \<Rightarrow> error + page) \<Rightarrow> (error + point list) option" where
  "fetch_occurrences search =
     (case fetch_loop search 0 [] of
        None \<Rightarrow> None
      | Some (Inl e) \<Rightarrow> Some (Inl e)
      | Some (Inr results) \<Rightarrow> Some (Inr (occurrence_coords results)))"

subsection \<open>Mosaic and sample_embeddings\<close>

text \<open>
  The mosaic is an array of shape \<open>mosaic_h \<times> mosaic_w \<times> n_channels\<close>; \<open>pixel m row col\<close> is
  the vector \<^verbatim>\<open>mosaic[row, col, :]\<close>. The affine transform is given by rasterio's two
  conversions, \<^verbatim>\<open>rowcol(transform, lon, lat)\<close> and \<^verbatim>\<open>xy(transform, row, col)\<close>.
\<close>

record mosaic =
  mosaic_h :: nat
  mosaic_w :: nat
  n_channels :: nat
  pixel :: "nat \<Rightarrow> nat \<Rightarrow> real list"

record transform =
  rowcol :: "real \<Rightarrow> real \<Rightarrow> int \<times> int"
  xy :: "int \<Rightarrow> int \<Rightarrow> point"

text \<open>One iteration of the loop of \<^verbatim>\<open>sample_embeddings\<close>, on the two lists it appends to.\<close>

definition sample_step ::
  "mosaic \<Rightarrow> transform \<Rightarrow> point \<Rightarrow> real list list \<times> point list \<Rightarrow> real list list \<times> point list"
where
  "sample_step m t c acc =
     (case c of (lon, lat) \<Rightarrow>
      (case acc of (embeddings, valid_coords) \<Rightarrow>
      (case rowcol t lon lat of (row, col) \<Rightarrow>
         if 0 \<le> row \<and> row < int (mosaic_h m) \<and> 0 \<le> col \<and> col < int (mosaic_w m)
         then (embeddings @ [pixel m (nat row) (nat col)], valid_coords @ [(lon, lat)])
         else (embeddings, valid_coords))))"

definition sample_embeddings ::
  "mosaic \<Rightarrow> transform \<Rightarrow> point list \<Rightarrow> real list list \<times> point list"
where
  "sample_embeddings m t coords = fold (sample_step m t) coords ([], [])"

text \<open>The specification's validity of a coordinate: its resolved pixel lies in
  \<open>[0, height) \<times> [0, width)\<close>.\<close>

definition in_mosaic :: "mosaic \<Rightarrow> transform \<Rightarrow> point \<Rightarrow> bool" where
  "in_mosaic m t c =
     (0 \<le> fst (rowcol t (fst c) (snd c)) \<and> fst (rowcol t (fst c) (snd c)) < int (mosaic_h m) \<and>
      0 \<le> snd (rowcol t (fst c) (snd c)) \<and> snd (rowcol t (fst c) (snd c)) < int (mosaic_w m))"

definition embedding_at :: "mosaic \<Rightarrow> transform \<Rightarrow> point \<Rightarrow> real list" where
  "embedding_at m t c =
     pixel m (nat (fst (rowcol t (fst c) (snd c)))) (nat (snd (rowcol t (fst c) (snd c))))"

subsection \<open>Training data and classifier\<close>

text \<open>
  \<^verbatim>\<open>np.vstack([X_pos, X_neg])\<close>. \<^verbatim>\<open>np.array\<close> of an empty list is one-dimensional of
  length zero, which \<^verbatim>\<open>vstack\<close> reads as one row of no columns; the row widths of the
  two blocks must agree.
\<close>

definition atleast_2d :: "real list list \<Rightarrow> real list list" where
  "atleast_2d X = (if X = [] then [[]] else X)"

definition vstack :: "real list list \<Rightarrow> real list list \<Rightarrow> error + real list list" where
  "vstack A B =
     (if length (hd (atleast_2d A)) = length (hd (atleast_2d B))
      then Inr (atleast_2d A @ atleast_2d B)
      else Inl (ValueError ''all the input array dimensions except for the concatenation axis must match exactly''))"

text \<open>The local variables of \<^verbatim>\<open>run\<close> after step 3 (lines 186 to 197).\<close>

record training =
  X_pos :: "real list list"
  valid_positives :: "point list"
  negatives :: "point list"
  X_neg :: "real list list"
  X_train :: "real list list"
  y_train :: "nat list"
  rng_after :: rng

definition prepare_training ::
  "sampler \<Rightarrow> mosaic \<Rightarrow> transform \<Rightarrow> point list \<Rightarrow> bbox \<Rightarrow> rng \<Rightarrow> error + training"
where
  "prepare_training mt m t positives bb g =
     (case sample_embeddings m t positives of (xpos, valid) \<Rightarrow>
      (case generate_negatives mt valid bb (int (length valid) * 5) 42 g of
         Inl e \<Rightarrow> Inl e
       | Inr (negs, g1) \<Rightarrow>
          (case sample_embeddings m t negs of (xneg, valid_negatives) \<Rightarrow>
           (case vstack xpos xneg of
              Inl e \<Rightarrow> Inl e
            | Inr xtrain \<Rightarrow>
                Inr \<lparr>X_pos = xpos, valid_positives = valid, negatives = negs, X_neg = xneg,
                     X_train = xtrain,
                     y_train = replicate (length xpos) 1 @ replicate (length xneg) 0,
                     rng_after = g1\<rparr>))))"

text \<open>
  Lines 201 to 206: the neighbour count and the fit. \<open>knn_fit k X y\<close> stands for building
  the scaler and k-nearest-neighbour pipeline with \<^verbatim>\<open>n_neighbors=k\<close> and calling
  \<^verbatim>\<open>model.fit(X, y)\<close>; it is the library's and may raise.
\<close>

definition neighbor_count :: "real list list \<Rightarrow> int" where
  "neighbor_count xtrain = min 10 (int (length xtrain) div 2)"

definition train_classifier ::
  "(int \<Rightarrow> real list list \<Rightarrow> nat list \<Rightarrow> error + 'm) \<Rightarrow> real list list \<Rightarrow> nat list \<Rightarrow> error + 'm"
where
  "train_classifier knn_fit xtrain ytrain = knn_fit (neighbor_count xtrain) xtrain ytrain"

subsection \<open>Batched prediction\<close>

text \<open>\<^verbatim>\<open>mosaic.reshape(-1, n_channels)\<close>: the pixels in row-major order; with no channels
  the unknown dimension cannot be inferred and numpy raises.\<close>

definition all_pixels_of :: "mosaic \<Rightarrow> error + real list list" where
  "all_pixels_of m =
     (if n_channels m = 0 then Inl (ValueError ''cannot reshape array of size 0'')
      else Inr [pixel m row col. row \<leftarrow> [0..<mosaic_h m], col \<leftarrow> [0..<mosaic_w m]])"

text \<open>\<^verbatim>\<open>range(0, n, step)\<close> for a positive step.\<close>

definition range_step :: "nat \<Rightarrow> nat \<Rightarrow> nat list" where
  "range_step n step = map (\<lambda>j. j * step) [0..<(n + step - 1) div step]"

text \<open>\<^verbatim>\<open>probs[:, 1]\<close>: the second column; a row with fewer than two entries raises.\<close>

definition column1 :: "real list list \<Rightarrow> error + real list" where
  "column1 probs =
     (if list_all (\<lambda>row. 2 \<le> length row) probs then Inr (map (\<lambda>row. row ! 1) probs)
      else Inl (IndexError ''index 1 is out of bounds for axis 1''))"

text \<open>\<^verbatim>\<open>a[i:stop] = v\<close> on arrays, for \<open>i \<le> stop \<le> length a\<close>: the lengths must agree,
  except that a single value is broadcast.\<close>

definition assign_slice :: "real list \<Rightarrow> nat \<Rightarrow> nat \<Rightarrow> real list \<Rightarrow> error + real list" where
  "assign_slice a i stop v =
     (if length v = stop - i then Inr (take i a @ v @ drop stop a)
      else if length v = 1 then Inr (take i a @ replicate (stop - i) (hd v) @ drop stop a)
      else Inl (ValueError ''could not broadcast input array''))"

text \<open>The body of the prediction loop at index \<open>i\<close>.\<close>

definition predict_step ::
  "(real list list \<Rightarrow> real list list) \<Rightarrow> real list list \<Rightarrow> nat \<Rightarrow> nat \<Rightarrow> real list \<Rightarrow> error + real list"
where
  "predict_step predict_proba all_pixels batch_size i probabilities =
     (case column1 (predict_proba
              (take (min (i + batch_size) (length all_pixels) - i) (drop i all_pixels))) of
        Inl e \<Rightarrow> Inl e
      | Inr col \<Rightarrow> assign_slice probabilities i (min (i + batch_size) (length all_pixels)) col)"

text \<open>A \<^verbatim>\<open>for\<close> loop over a list of indices whose body may raise.\<close>

fun for_loop :: "(nat \<Rightarrow> 's \<Rightarrow> error + 's) \<Rightarrow> nat list \<Rightarrow> 's \<Rightarrow> error + 's" where
  "for_loop body [] s = Inr s"
| "for_loop body (i # rest) s =
     (case body i s of Inl e \<Rightarrow> Inl e | Inr s' \<Rightarrow> for_loop body rest s')"

text \<open>Lines 214 to 220, with the batch size as a parameter (the script fixes it at
  15000). A zero step makes \<^verbatim>\<open>range\<close> raise.\<close>

definition predict_batched ::
  "(real list list \<Rightarrow> real list list) \<Rightarrow> real list list \<Rightarrow> nat \<Rightarrow> error + real list"
where
  "predict_batched predict_proba all_pixels batch_size =
     (if batch_size = 0 then Inl (ValueError ''range() arg 3 must not be zero'')
      else for_loop (predict_step predict_proba all_pixels batch_size)
             (range_step (length all_pixels) batch_size)
             (replicate (length all_pixels) 0))"

text \<open>Scoring the whole flattened mosaic with one call, as the specification compares
  against.\<close>

definition predict_at_once ::
  "(real list list \<Rightarrow> real list list) \<Rightarrow> real list list \<Rightarrow> error + real list"
where
  "predict_at_once predict_proba all_pixels = column1 (predict_proba all_pixels)"

subsection \<open>Candidate extraction\<close>

record feature =
  probability :: real
  coordinates :: point

text \<open>\<^verbatim>\<open>np.where(prob_map >= threshold)\<close>: the cells in row-major order;
  \<^verbatim>\<open>prob_map[row, col]\<close> is entry \<open>row * w + col\<close> of the flat array.\<close>

definition where_ge :: "real list \<Rightarrow> nat \<Rightarrow> nat \<Rightarrow> real \<Rightarrow> (nat \<times> nat) list" where
  "where_ge probabilities h w threshold =
     [(row, col). row \<leftarrow> [0..<h], col \<leftarrow> [0..<w], probabilities ! (row * w + col) \<ge> threshold]"

text \<open>Indexing by an index array, \<^verbatim>\<open>rows[idx], cols[idx]\<close>; an index out of range
  raises.\<close>

definition take_indices :: "'a list \<Rightarrow> nat list \<Rightarrow> error + 'a list" where
  "take_indices cells idx =
     (if list_all (\<lambda>i. i < length cells) idx then Inr (map (\<lambda>i. cells ! i) idx)
      else Inl (IndexError ''index is out of bounds for axis 0''))"

text \<open>Lines 245 to 250. \<open>choice n k\<close> is the outcome of
  \<^verbatim>\<open>np.random.choice(n, k, replace=False)\<close> in the generator's current state.\<close>

definition select_cells ::
  "(nat \<Rightarrow> nat \<Rightarrow> nat list) \<Rightarrow> real list \<Rightarrow> nat \<Rightarrow> nat \<Rightarrow> error + (nat \<times> nat) list"
where
  "select_cells choice probabilities h w =
     (if length (where_ge probabilities h w (6 / 10)) > 5000
      then take_indices (where_ge probabilities h w (6 / 10))
             (choice (length (where_ge probabilities h w (6 / 10))) 5000)
      else Inr (where_ge probabilities h w (6 / 10)))"

text \<open>Lines 252 to 260: one feature per retained cell, then a stable sort by
  probability.\<close>

definition make_feature :: "transform \<Rightarrow> real list \<Rightarrow> nat \<Rightarrow> nat \<times> nat \<Rightarrow> feature" where
  "make_feature t probabilities w cell =
     \<lparr>probability = probabilities ! (fst cell * w + snd cell),
      coordinates = xy t (int (fst cell)) (int (snd cell))\<rparr>"

definition extract_candidates ::
  "(nat \<Rightarrow> nat \<Rightarrow> nat list) \<Rightarrow> transform \<Rightarrow> real list \<Rightarrow> nat \<Rightarrow> nat \<Rightarrow> error + feature list"
where
  "extract_candidates choice t probabilities h w =
     (case select_cells choice probabilities h w of
        Inl e \<Rightarrow> Inl e
      | Inr cells \<Rightarrow> Inr (sort_key probability (map (make_feature t probabilities w) cells)))"

subsection \<open>run\<close>

text \<open>
  What a run leaves behind: its error-level log records and its file-system effects, in
  order (info-level records are not modelled). The outcome of a run is the list of these
  events and the exception that ended it, if one did.
\<close>

record metadata =
  species :: string
  taxon_key :: int
  n_occurrences :: nat
  n_candidates :: nat
  threshold :: real

datatype event =
    LogError string
  | Mkdir
  | WriteProbabilityTif nat nat "real list"
  | WriteCandidatesGeojson "feature list" metadata
  | WriteOccurrencesGeojson "point list"

fun writes_output :: "event \<Rightarrow> bool" where
  "writes_output (LogError msg) = False"
| "writes_output Mkdir = True"
| "writes_output (WriteProbabilityTif h w raster) = True"
| "writes_output (WriteCandidatesGeojson fs md) = True"
| "writes_output (WriteOccurrencesGeojson ps) = True"

text \<open>
  The collaborators of a run: the two GBIF requests, the tile cache behind
  \<^verbatim>\<open>load_mosaic\<close> (which may raise when no tile is found), numpy's generator and
  \<^verbatim>\<open>choice\<close>, and the classifier's \<^verbatim>\<open>fit\<close> and \<^verbatim>\<open>predict_proba\<close>.
\<close>

record 'm library =
  lib_match :: "string \<Rightarrow> error + int option"
  lib_search :: "int \<Rightarrow> bbox \<Rightarrow> nat \<Rightarrow> error + page"
  lib_load_mosaic :: "bbox \<Rightarrow> error + (mosaic \<times> transform)"
  lib_sampler :: sampler
  lib_choice :: "rng \<Rightarrow> nat \<Rightarrow> nat \<Rightarrow> nat list"
  lib_fit :: "int \<Rightarrow> real list list \<Rightarrow> nat list \<Rightarrow> error + 'm"
  lib_predict_proba :: "'m \<Rightarrow> real list list \<Rightarrow> real list list"

text \<open>Lines 173 to 293 of \<^verbatim>\<open>run\<close>, from the fetched occurrences on. The statistics line
  takes \<^verbatim>\<open>probabilities.min()\<close>, which raises on an empty raster.\<close>

definition run_pipeline ::
  "'m library \<Rightarrow> string \<Rightarrow> int \<Rightarrow> bbox \<Rightarrow> point list \<Rightarrow> rng \<Rightarrow> event list \<times> error option"
where
  "run_pipeline lib species_name key bb positives g =
     (if length positives < 5 then ([LogError ''Need at least 5 occurrences''], None)
      else
       (case lib_load_mosaic lib bb of
          Inl e \<Rightarrow> ([], Some e)
        | Inr (m, t) \<Rightarrow>
       (case prepare_training (lib_sampler lib) m t positives bb g of
          Inl e \<Rightarrow> ([], Some e)
        | Inr tr \<Rightarrow>
       (case train_classifier (lib_fit lib) (X_train tr) (y_train tr) of
          Inl e \<Rightarrow> ([], Some e)
        | Inr model \<Rightarrow>
       (case all_pixels_of m of
          Inl e \<Rightarrow> ([], Some e)
        | Inr all_pixels \<Rightarrow>
       (case predict_batched (lib_predict_proba lib model) all_pixels 15000 of
          Inl e \<Rightarrow> ([], Some e)
        | Inr probabilities \<Rightarrow>
       (case amin probabilities of
          Inl e \<Rightarrow> ([], Some e)
        | Inr lowest \<Rightarrow>
       (case extract_candidates (lib_choice lib (rng_after tr)) t probabilities
               (mosaic_h m) (mosaic_w m) of
          Inl e \<Rightarrow>
            ([Mkdir, WriteProbabilityTif (mosaic_h m) (mosaic_w m) probabilities], Some e)
        | Inr candidates \<Rightarrow>
            ([Mkdir,
              WriteProbabilityTif (mosaic_h m) (mosaic_w m) probabilities,
              WriteCandidatesGeojson candidates
                \<lparr>species = species_name, taxon_key = key,
                 n_occurrences = length (valid_positives tr),
                 n_candidates = length candidates, threshold = 6 / 10\<rparr>,
              WriteOccurrencesGeojson (valid_positives tr)], None)))))))))"

text \<open>\<^verbatim>\<open>run(species_name, bbox, output_dir)\<close>; the result is \<open>None\<close> when the paging loop
  of \<^verbatim>\<open>fetch_occurrences\<close> does not end.\<close>

definition run ::
  "'m library \<Rightarrow> string \<Rightarrow> bbox \<Rightarrow> rng \<Rightarrow> (event list \<times> error option) option"
where
  "run lib species_name bb g =
     (case get_species_key (lib_match lib) species_name of
        Inl e \<Rightarrow> Some ([], Some e)
      | Inr key \<Rightarrow>
         (case fetch_occurrences (lib_search lib key bb) of
            None \<Rightarrow> None
          | Some (Inl e) \<Rightarrow> Some ([], Some e)
          | Some (Inr positives) \<Rightarrow> Some (run_pipeline lib species_name key bb positives g)))"

subsection \<open>The specification's notions\<close>

text \<open>
  The Euclidean distance of two coordinate pairs in degree space, and the separation
  of a point from a list of positives, as the specification words them.
\<close>

definition euclid :: "point \<Rightarrow> point \<Rightarrow> real" where
  "euclid q p = sqrt ((fst q - fst p)\<^sup>2 + (snd q - snd p)\<^sup>2)"

definition far_from :: "point list \<Rightarrow> point \<Rightarrow> bool" where
  "far_from positives q = list_all (\<lambda>p. euclid q p > 5 / 1000) positives"

text \<open>A record that the occurrence filter is said to drop: a coordinate field is
  missing, or is exactly zero.\<close>

definition dropped :: "occurrence \<Rightarrow> bool" where
  "dropped r =
     (decimalLatitude r = None \<or> decimalLongitude r = None \<or>
      decimalLatitude r = Some 0 \<or> decimalLongitude r = Some 0)"

subsection \<open>Concrete inputs\<close>

text \<open>A generator that always yields the unit sample one half, the unit square as
  bounding box, and a state of the process-wide generator before the call.\<close>

definition half_sampler :: sampler where
  "half_sampler s i = 1 / 2"

definition unit_box :: bbox where
  "unit_box = (0, 0, 1, 1)"

definition fresh_rng :: rng where
  "fresh_rng = \<lparr>seeded = 0, drawn = 0\<rparr>"

text \<open>A mosaic of one pixel with one channel, and a transform that resolves a
  coordinate to the integer parts of its latitude and longitude.\<close>

definition toy_mosaic :: mosaic where
  "toy_mosaic = \<lparr>mosaic_h = 1, mosaic_w = 1, n_channels = 1, pixel = (\<lambda>row col. [1])\<rparr>"

definition toy_transform :: transform where
  "toy_transform =
     \<lparr>rowcol = (\<lambda>lon lat. (\<lfloor>lat\<rfloor>, \<lfloor>lon\<rfloor>)), xy = (\<lambda>row col. (real_of_int col, real_of_int row))\<rparr>"

text \<open>A classifier whose fit accepts every neighbour count and whose fitted model is
  the arguments of the call.\<close>

definition recording_fit ::
  "int \<Rightarrow> real list list \<Rightarrow> nat list \<Rightarrow> error + (int \<times> real list list \<times> nat list)" where
  "recording_fit k X y = Inr (k, X, y)"

text \<open>The training data of the one-pixel mosaic for the positives \<open>(0, 0)\<close> and
  \<open>(2, 2)\<close>.\<close>

definition toy_training_result :: training where
  "toy_training_result =
     \<lparr>X_pos = [[1]], valid_positives = [(0, 0)], negatives = replicate 5 (1 / 2, 1 / 2),
      X_neg = replicate 5 [1], X_train = [1] # replicate 5 [1],
      y_train = 1 # replicate 5 0, rng_after = \<lparr>seeded = 42, drawn = 10\<rparr>\<rparr>"

text \<open>A search answering every request with the same four records, and a library
  built from the pieces above.\<close>

definition toy_records :: "occurrence list" where
  "toy_records =
     [\<lparr>decimalLatitude = Some 52, decimalLongitude = Some 1\<rparr>,
      \<lparr>decimalLatitude = None, decimalLongitude = Some 1\<rparr>,
      \<lparr>decimalLatitude = Some 0, decimalLongitude = Some 1\<rparr>,
      \<lparr>decimalLatitude = Some 52, decimalLongitude = Some 0\<rparr>]"

definition toy_search :: "nat \<Rightarrow> error + page" where
  "toy_search offset = Inr \<lparr>page_results = toy_records, page_count = 4\<rparr>"

definition toy_library :: "(int \<times> real list list \<times> nat list) library" where
  "toy_library =
     \<lparr>lib_match = (\<lambda>name. Inr (Some 5231)),
      lib_search = (\<lambda>key bb. toy_search),
      lib_load_mosaic = (\<lambda>bb. Inr (toy_mosaic, toy_transform)),
      lib_sampler = half_sampler,
      lib_choice = (\<lambda>g n k. [0..<k]),
      lib_fit = recording_fit,
      lib_predict_proba = (\<lambda>model xs. map (\<lambda>px. [0, 1]) xs)\<rparr>"

text \<open>The probabilities after \<open>j\<close> batches of the prediction loop, when the classifier
  scores a pixel \<open>x\<close> with the row \<open>f x\<close>: the first \<open>j * batch_size\<close> pixels are scored, the
  rest still hold the initial zero.\<close>

definition partial_scores :: "(real list \<Rightarrow> real list) \<Rightarrow> real list list \<Rightarrow> nat \<Rightarrow> nat \<Rightarrow> real list" where
  "partial_scores f all_pixels batch_size j =
     map (\<lambda>x. f x ! 1) (take (j * batch_size) all_pixels)
       @ replicate (length all_pixels - j * batch_size) 0"

text \<open>A classifier that scores a pixel by the sum of its channels, and three pixels.\<close>

definition toy_scores :: "real list \<Rightarrow> real list" where
  "toy_scores px = [1 - sum_list px, sum_list px]"

definition toy_predict :: "real list list \<Rightarrow> real list list" where
  "toy_predict ys = map toy_scores ys"

definition toy_pixels :: "real list list" where
  "toy_pixels = [[1 / 4], [1 / 2], [3 / 4]]"

text \<open>What numpy promises of \<^verbatim>\<open>np.random.choice(n, 5000, replace=False)\<close> for
  \<open>n > 5000\<close>: 5000 distinct indices below \<open>n\<close>.\<close>

definition without_replacement :: "(nat \<Rightarrow> nat \<Rightarrow> nat list) \<Rightarrow> bool" where
  "without_replacement choice =
     (\<forall>n. 5000 < n \<longrightarrow>
        length (choice n 5000) = 5000 \<and> distinct (choice n 5000)
        \<and> (\<forall>i \<in> set (choice n 5000). i < n))"

text \<open>A draw that picks the first \<open>k\<close> indices, and a raster of one row of 5001 cells
  of probability one.\<close>

definition first_indices :: "nat \<Rightarrow> nat \<Rightarrow> nat list" where
  "first_indices n k = [0..<k]"

definition wide_raster :: "real list" where
  "wide_raster = replicate 5001 1"

section \<open>Properties\<close>

subsection \<open>Negative sampling\<close>

lemma fold_min_le_init: "fold min ds (d::real) \<le> d"
proof (induction ds arbitrary: d)
  case Nil show ?case by simp
next
  case (Cons a ds)
  have "fold min ds (min a d) \<le> min a d" by (rule Cons.IH)
  then show ?case by simp
qed

lemma fold_min_le_elem: "x \<in> set ds \<Longrightarrow> fold min ds (d::real) \<le> x"
proof (induction ds arbitrary: d)
  case Nil
  then show ?case by simp
next
  case (Cons a ds)
  show ?case
  proof (cases "x = a")
    case True
    have "fold min ds (min a d) \<le> min a d" by (rule fold_min_le_init)
    with True show ?thesis by simp
  next
    case False
    with Cons.prems have "x \<in> set ds" by simp
    then show ?thesis using Cons.IH by simp
  qed
qed

lemma amin_le: "amin ds = Inr m \<Longrightarrow> x \<in> set ds \<Longrightarrow> m \<le> x"
proof (cases ds)
  case Nil
  assume "x \<in> set ds" with Nil show ?thesis by simp
next
  case (Cons d ds')
  assume a: "amin ds = Inr m" and x: "x \<in> set ds"
  from a Cons have m: "m = fold min ds' d" by simp
  show ?thesis
  proof (cases "x = d")
    case True
    then show ?thesis using m fold_min_le_init by simp
  next
    case False
    with x Cons have "x \<in> set ds'" by simp
    then show ?thesis using m fold_min_le_elem by simp
  qed
qed

lemma accepted_far:
  assumes "dists pos_arr lon lat = Inr ds" and "amin ds = Inr m" and "m > min_dist"
  shows "far_from pos_arr (lon, lat)"
  unfolding far_from_def list_all_iff
proof
  fix p assume p: "p \<in> set pos_arr"
  obtain px py where pp: "p = (px, py)" by (cases p)
  from assms(1) have ds: "ds = map (\<lambda>(px, py). sqrt ((px - lon)\<^sup>2 + (py - lat)\<^sup>2)) pos_arr"
    by (auto simp: dists_def split: if_splits)
  with p pp have "sqrt ((px - lon)\<^sup>2 + (py - lat)\<^sup>2) \<in> set ds" by force
  with assms(2) have "m \<le> sqrt ((px - lon)\<^sup>2 + (py - lat)\<^sup>2)" by (rule amin_le)
  moreover have "euclid (lon, lat) p = sqrt ((px - lon)\<^sup>2 + (py - lat)\<^sup>2)"
    by (simp add: pp euclid_def power2_commute)
  ultimately show "euclid (lon, lat) p > 5 / 1000" using assms(3) by (simp add: min_dist_def)
qed

text \<open>One iteration of the loop, when the range is not exhausted.\<close>

lemma negatives_loop_Suc:
  assumes "negatives_loop mt pos_arr bb n (Suc k) acc g = Inr r"
  shows "(int (length acc) \<ge> n \<and> r = (acc, g)) \<or>
     (\<exists>lon lat g2 ds m. \<not> int (length acc) \<ge> n \<and> dists pos_arr lon lat = Inr ds \<and> amin ds = Inr m \<and>
        drawn g2 = drawn g + 2 \<and> seeded g2 = seeded g \<and>
        negatives_loop mt pos_arr bb n k (if m > min_dist then acc @ [(lon, lat)] else acc) g2 = Inr r)"
proof (cases "int (length acc) \<ge> n")
  case True
  with assms show ?thesis by (cases bb) simp
next
  case False
  obtain a b c d where bb: "bb = (a, b, c, d)" by (cases bb)
  define lon where "lon = a + (c - a) * mt (seeded g) (drawn g)"
  define lat where "lat = b + (d - b) * mt (seeded g) (Suc (drawn g))"
  define g2 where "g2 = g\<lparr>drawn := Suc (Suc (drawn g))\<rparr>"
  from assms False bb obtain ds where ds: "dists pos_arr lon lat = Inr ds"
    by (auto simp: uniform_def lon_def lat_def split: sum.splits)
  from assms False bb ds obtain m where m: "amin ds = Inr m"
    by (auto simp: uniform_def lon_def lat_def split: sum.splits)
  from assms False bb ds m
  have "negatives_loop mt pos_arr bb n k (if m > min_dist then acc @ [(lon, lat)] else acc) g2 = Inr r"
    by (auto simp: uniform_def lon_def lat_def g2_def split: sum.splits if_splits)
  moreover have "drawn g2 = drawn g + 2" "seeded g2 = seeded g" by (simp_all add: g2_def)
  ultimately show ?thesis using False ds m by blast
qed

lemma negatives_loop_far:
  assumes "negatives_loop mt pos_arr bb n k acc g = Inr (negs, g')"
    and "list_all (far_from pos_arr) acc"
  shows "list_all (far_from pos_arr) negs"
  using assms
proof (induction k arbitrary: acc g)
  case 0
  then show ?case by simp
next
  case (Suc k)
  from negatives_loop_Suc[OF Suc.prems(1)] show ?case
  proof
    assume "int (length acc) \<ge> n \<and> (negs, g') = (acc, g)"
    with Suc.prems(2) show ?thesis by simp
  next
    assume "\<exists>lon lat g2 ds m. \<not> int (length acc) \<ge> n \<and> dists pos_arr lon lat = Inr ds \<and> amin ds = Inr m \<and>
        drawn g2 = drawn g + 2 \<and> seeded g2 = seeded g \<and>
        negatives_loop mt pos_arr bb n k (if m > min_dist then acc @ [(lon, lat)] else acc) g2 = Inr (negs, g')"
    then obtain lon lat g2 ds m where ds: "dists pos_arr lon lat = Inr ds" and m: "amin ds = Inr m"
      and step: "negatives_loop mt pos_arr bb n k (if m > min_dist then acc @ [(lon, lat)] else acc) g2 = Inr (negs, g')"
      by blast
    have "list_all (far_from pos_arr) (if m > min_dist then acc @ [(lon, lat)] else acc)"
      using Suc.prems(2) accepted_far[OF ds m] by simp
    with step show ?thesis by (rule Suc.IH)
  qed
qed

lemma negatives_loop_length:
  assumes "negatives_loop mt pos_arr bb n k acc g = Inr (negs, g')"
  shows "int (length negs) \<le> max n (int (length acc))"
  using assms
proof (induction k arbitrary: acc g)
  case 0
  then show ?case by simp
next
  case (Suc k)
  from negatives_loop_Suc[OF Suc.prems] show ?case
  proof
    assume "int (length acc) \<ge> n \<and> (negs, g') = (acc, g)"
    then show ?thesis by simp
  next
    assume "\<exists>lon lat g2 ds m. \<not> int (length acc) \<ge> n \<and> dists pos_arr lon lat = Inr ds \<and> amin ds = Inr m \<and>
        drawn g2 = drawn g + 2 \<and> seeded g2 = seeded g \<and>
        negatives_loop mt pos_arr bb n k (if m > min_dist then acc @ [(lon, lat)] else acc) g2 = Inr (negs, g')"
    then obtain lon lat g2 m where small: "\<not> int (length acc) \<ge> n"
      and step: "negatives_loop mt pos_arr bb n k (if m > min_dist then acc @ [(lon, lat)] else acc) g2 = Inr (negs, g')"
      by blast
    from Suc.IH[OF step]
    have "int (length negs) \<le> max n (int (length (if m > min_dist then acc @ [(lon, lat)] else acc)))" .
    with small show ?thesis by (simp split: if_splits)
  qed
qed

lemma generate_negatives_length:
  assumes "generate_negatives mt positives bb n seed g = Inr (negs, g')"
  shows "int (length negs) \<le> max n 0"
proof -
  from assms obtain g0 where
    "negatives_loop mt positives bb n (nat (n * 100)) [] g0 = Inr (negs, g')"
    by (auto simp: generate_negatives_def split: sum.splits)
  from negatives_loop_length[OF this] show ?thesis by simp
qed

text \<open>
  Claim C1. Whenever \<^verbatim>\<open>generate_negatives\<close> returns a list, every point of that list has
  Euclidean degree-space distance strictly greater than 0.005 to every point of the
  positive list, for any bounding box, target count, seed and generator state.
\<close>

theorem negatives_separated:
  assumes "generate_negatives mt positives bb n_samples seed g = Inr (negs, g')"
    and "q \<in> set negs" and "p \<in> set positives"
  shows "euclid q p > 5 / 1000"
proof -
  from assms(1) obtain g0 where
    "negatives_loop mt positives bb n_samples (nat (n_samples * 100)) [] g0 = Inr (negs, g')"
    by (auto simp: generate_negatives_def split: sum.splits)
  then have "list_all (far_from positives) negs"
    by (rule negatives_loop_far) simp
  with assms(2) have "far_from positives q" by (simp add: list_all_iff)
  with assms(3) show ?thesis by (simp add: far_from_def list_all_iff)
qed


lemma min_dist_less_sqrt: "min_dist < sqrt x \<longleftrightarrow> 1 / 40000 < x"
proof -
  have "sqrt (1 / 40000) = (1 / 200 :: real)"
    by (rule real_sqrt_unique) (simp_all add: power2_eq_square)
  then have "min_dist = sqrt (1 / 40000)" by (simp add: min_dist_def)
  then have "(min_dist < sqrt x) = (sqrt (1 / 40000) < sqrt x)" by (rule arg_cong)
  also have "\<dots> = (1 / 40000 < x)" by (rule real_sqrt_less_iff)
  finally show ?thesis .
qed

lemma gn_run: "generate_negatives half_sampler [(0, 0)] unit_box 1 42 fresh_rng
     = Inr ([(1 / 2, 1 / 2)], \<lparr>seeded = 42, drawn = 2\<rparr>)"
  by (simp add: generate_negatives_def random_seed_def unit_box_def uniform_def half_sampler_def
       dists_def min_dist_less_sqrt power2_eq_square numeral_eq_Suc)

text \<open>A run of claim C1's theorem: one positive at the origin, one negative asked for.\<close>

theorem negatives_separated_witness:
  "generate_negatives half_sampler [(0, 0)] unit_box 1 42 fresh_rng
     = Inr ([(1 / 2, 1 / 2)], \<lparr>seeded = 42, drawn = 2\<rparr>)
   \<and> (1 / 2, 1 / 2) \<in> set [(1 / 2, 1 / 2) :: point]
   \<and> (0, 0) \<in> set [(0, 0) :: point]
   \<and> euclid (1 / 2, 1 / 2) (0, 0) > 5 / 1000"
proof -
  have r: "generate_negatives half_sampler [(0, 0)] unit_box 1 42 fresh_rng
     = Inr ([(1 / 2, 1 / 2)], \<lparr>seeded = 42, drawn = 2\<rparr>)" by (rule gn_run)
  have "euclid (1 / 2, 1 / 2) (0, 0) > 5 / 1000"
    by (rule negatives_separated[OF r]) simp_all
  with r show ?thesis by simp
qed

text \<open>
  Claim C7. The outcome of \<^verbatim>\<open>generate_negatives\<close> (the negatives, element for element,
  and the generator state left behind) is determined by the bounding box, the positive
  list, the target count and the seed: it is the same from any two states the
  process-wide generator may have been in before the call.
\<close>

theorem generate_negatives_deterministic:
  "generate_negatives mt positives bb n_samples seed g1
     = generate_negatives mt positives bb n_samples seed g2"
  by (simp add: generate_negatives_def random_seed_def)






subsection \<open>Coordinate sampling\<close>

lemma sample_fold:
  "fold (sample_step m t) coords (es, vs)
     = (es @ map (embedding_at m t) (filter (in_mosaic m t) coords),
        vs @ filter (in_mosaic m t) coords)"
proof (induction coords arbitrary: es vs)
  case Nil
  show ?case by simp
next
  case (Cons c coords)
  obtain lon lat where c: "c = (lon, lat)" by (cases c)
  obtain row col where rc: "rowcol t lon lat = (row, col)" by (cases "rowcol t lon lat")
  show ?case
  proof (cases "in_mosaic m t c")
    case True
    then have "sample_step m t c (es, vs) = (es @ [embedding_at m t c], vs @ [c])"
      by (simp add: sample_step_def in_mosaic_def embedding_at_def c rc)
    with True show ?thesis by (simp add: Cons.IH)
  next
    case False
    then have "sample_step m t c (es, vs) = (es, vs)"
      by (simp add: sample_step_def in_mosaic_def c rc)
    with False show ?thesis by (simp add: Cons.IH)
  qed
qed

lemma sample_embeddings_eq:
  "sample_embeddings m t coords
     = (map (embedding_at m t) (filter (in_mosaic m t) coords), filter (in_mosaic m t) coords)"
  by (simp add: sample_embeddings_def sample_fold)

text \<open>
  Claim C3. \<^verbatim>\<open>sample_embeddings\<close> returns without error, for every mosaic, transform and
  coordinate list; the retained coordinates are the input coordinates whose resolved
  pixel lies in \<open>[0, h) \<times> [0, w)\<close>, in input order; the embeddings are the pixels at
  those coordinates, in the same order; the two results have the same length, the number
  of valid inputs.
\<close>

theorem sample_embeddings_filter:
  "snd (sample_embeddings m t coords) = filter (in_mosaic m t) coords
   \<and> fst (sample_embeddings m t coords) = map (embedding_at m t) (filter (in_mosaic m t) coords)
   \<and> length (fst (sample_embeddings m t coords)) = length (snd (sample_embeddings m t coords))
   \<and> length (snd (sample_embeddings m t coords)) = length (filter (in_mosaic m t) coords)"
  by (simp add: sample_embeddings_eq)

subsection \<open>Training data\<close>



lemma prepare_training_Inr:
  assumes "prepare_training mt m t positives bb g = Inr tr"
  shows "valid_positives tr = filter (in_mosaic m t) positives"
    and "generate_negatives mt (filter (in_mosaic m t) positives) bb
           (int (length (filter (in_mosaic m t) positives)) * 5) 42 g = Inr (negatives tr, rng_after tr)"
    and "vstack (X_pos tr) (X_neg tr) = Inr (X_train tr)"
  using assms
  by (auto simp: prepare_training_def sample_embeddings_eq split: sum.splits prod.splits)

text \<open>
  Claim C10. When step 3 of the run succeeds, the positives it kept are the fetched
  positives inside the mosaic, and the negatives are those of the call of
  \<^verbatim>\<open>generate_negatives\<close> on them with target count five times their number (and the
  default seed 42); so there are at most five negatives per retained positive.
\<close>

theorem five_negatives_per_positive:
  assumes "prepare_training mt m t positives bb g = Inr tr"
  shows "valid_positives tr = filter (in_mosaic m t) positives
       \<and> generate_negatives mt (valid_positives tr) bb
           (5 * int (length (filter (in_mosaic m t) positives))) 42 g
           = Inr (negatives tr, rng_after tr)
       \<and> int (length (negatives tr)) \<le> 5 * int (length (filter (in_mosaic m t) positives))"
proof -
  let ?v = "filter (in_mosaic m t) positives"
  have v: "valid_positives tr = ?v" using assms by (rule prepare_training_Inr)
  have g: "generate_negatives mt ?v bb (5 * int (length ?v)) 42 g = Inr (negatives tr, rng_after tr)"
    using prepare_training_Inr(2)[OF assms] by (simp add: mult.commute)
  have "int (length (negatives tr)) \<le> 5 * int (length ?v)"
    using generate_negatives_length[OF g] by simp
  with v g show ?thesis by simp
qed

lemma toy_sample: "sample_embeddings toy_mosaic toy_transform [(0, 0), (2, 2)] = ([[1]], [(0, 0)])"
  by (simp add: sample_embeddings_def sample_step_def toy_mosaic_def toy_transform_def)

lemma toy_valid: "filter (in_mosaic toy_mosaic toy_transform) [(0, 0), (2, 2)] = [(0, 0)]"
  by (simp add: in_mosaic_def toy_mosaic_def toy_transform_def)

lemma toy_negatives:
  "generate_negatives half_sampler [(0, 0)] unit_box 5 42 fresh_rng
     = Inr (replicate 5 (1 / 2, 1 / 2), \<lparr>seeded = 42, drawn = 10\<rparr>)"
  by (simp add: generate_negatives_def random_seed_def unit_box_def uniform_def half_sampler_def
       dists_def min_dist_less_sqrt power2_eq_square numeral_eq_Suc)

lemma toy_sample_neg:
  "sample_embeddings toy_mosaic toy_transform (replicate 5 (1 / 2, 1 / 2))
     = (replicate 5 [1], replicate 5 (1 / 2, 1 / 2))"
  by (simp add: sample_embeddings_def sample_step_def toy_mosaic_def toy_transform_def numeral_eq_Suc)

lemma toy_training:
  "prepare_training half_sampler toy_mosaic toy_transform [(0, 0), (2, 2)] unit_box fresh_rng
     = Inr \<lparr>X_pos = [[1]], valid_positives = [(0, 0)], negatives = replicate 5 (1 / 2, 1 / 2),
            X_neg = replicate 5 [1], X_train = [1] # replicate 5 [1],
            y_train = 1 # replicate 5 0, rng_after = \<lparr>seeded = 42, drawn = 10\<rparr>\<rparr>"
  by (simp add: prepare_training_def toy_sample toy_negatives toy_sample_neg vstack_def atleast_2d_def)

lemma toy_training_run:
  "prepare_training half_sampler toy_mosaic toy_transform [(0, 0), (2, 2)] unit_box fresh_rng
     = Inr toy_training_result"
  by (simp only: toy_training toy_training_result_def)

text \<open>
  A run of claim C10's theorem on the one-pixel mosaic: one of two positives is kept,
  five negatives are asked for and returned.
\<close>

theorem five_negatives_per_positive_witness:
  "prepare_training half_sampler toy_mosaic toy_transform [(0, 0), (2, 2)] unit_box fresh_rng
     = Inr toy_training_result
   \<and> valid_positives toy_training_result
       = filter (in_mosaic toy_mosaic toy_transform) [(0, 0), (2, 2)]
   \<and> generate_negatives half_sampler (valid_positives toy_training_result) unit_box
         (5 * int (length (filter (in_mosaic toy_mosaic toy_transform) [(0, 0), (2, 2)]))) 42 fresh_rng
       = Inr (negatives toy_training_result, rng_after toy_training_result)
   \<and> int (length (negatives toy_training_result))
       \<le> 5 * int (length (filter (in_mosaic toy_mosaic toy_transform) [(0, 0), (2, 2)]))"
  using toy_training_run five_negatives_per_positive[OF toy_training_run] by (rule conjI)

subsection \<open>Neighbour count\<close>





subsection \<open>Occurrences\<close>

lemma truthy_not_dropped:
  "(truthy (decimalLatitude r) \<and> truthy (decimalLongitude r)) = (\<not> dropped r)"
  by (cases "decimalLatitude r"; cases "decimalLongitude r") (auto simp: truthy_def dropped_def)

lemma occurrence_coords_filter:
  "occurrence_coords results
     = map (\<lambda>r. (the (decimalLongitude r), the (decimalLatitude r)))
         (filter (\<lambda>r. \<not> dropped r) results)"
  by (induction results) (simp_all add: occurrence_coords_def truthy_not_dropped)

lemma kept_nonzero:
  assumes "\<not> dropped r"
  shows "the (decimalLongitude r) \<noteq> 0 \<and> the (decimalLatitude r) \<noteq> 0"
  using assms by (cases "decimalLatitude r"; cases "decimalLongitude r") (auto simp: dropped_def)

text \<open>
  Claim C8. The coordinates \<^verbatim>\<open>fetch_occurrences\<close> returns are those of the records
  that are not dropped, in order, a record being dropped when its latitude or longitude
  is missing or exactly zero; so no returned coordinate pair has a zero longitude or a
  zero latitude.
\<close>

theorem zero_or_missing_coordinates_dropped:
  "occurrence_coords results
     = map (\<lambda>r. (the (decimalLongitude r), the (decimalLatitude r)))
         (filter (\<lambda>r. \<not> dropped r) results)
   \<and> list_all (\<lambda>p. fst p \<noteq> 0 \<and> snd p \<noteq> 0) (occurrence_coords results)
   \<and> (fetch_loop search 0 [] = Some (Inr results)
        \<longrightarrow> fetch_occurrences search = Some (Inr (occurrence_coords results)))"
proof (intro conjI impI)
  show "occurrence_coords results
     = map (\<lambda>r. (the (decimalLongitude r), the (decimalLatitude r)))
         (filter (\<lambda>r. \<not> dropped r) results)" by (rule occurrence_coords_filter)
  show "list_all (\<lambda>p. fst p \<noteq> 0 \<and> snd p \<noteq> 0) (occurrence_coords results)"
    by (auto simp: occurrence_coords_filter list_all_iff dest: kept_nonzero)
next
  assume "fetch_loop search 0 [] = Some (Inr results)"
  then show "fetch_occurrences search = Some (Inr (occurrence_coords results))"
    by (simp add: fetch_occurrences_def)
qed

lemma toy_fetch_loop: "fetch_loop toy_search 0 [] = Some (Inr toy_records)"
  by (subst fetch_loop.simps) (simp add: toy_search_def toy_records_def)

lemma toy_coords: "occurrence_coords toy_records = [(1, 52)]"
  by (simp add: occurrence_coords_def toy_records_def truthy_def)

lemma toy_fetch: "fetch_occurrences toy_search = Some (Inr [(1, 52)])"
  by (simp add: fetch_occurrences_def toy_fetch_loop toy_coords)

text \<open>
  A run of claim C8's theorem: of four records, the one with a missing latitude, the
  one on the equator and the one on the prime meridian are dropped.
\<close>

theorem zero_or_missing_coordinates_dropped_witness:
  "fetch_loop toy_search 0 [] = Some (Inr toy_records)
   \<and> fetch_occurrences toy_search = Some (Inr (occurrence_coords toy_records))
   \<and> occurrence_coords toy_records = [(1, 52)]
   \<and> list_all (\<lambda>p. fst p \<noteq> 0 \<and> snd p \<noteq> 0) (occurrence_coords toy_records)"
  using toy_fetch_loop toy_coords
    zero_or_missing_coordinates_dropped[of toy_records toy_search]
  by blast

subsection \<open>Too few occurrences\<close>

text \<open>
  Claim C6. When the species is found and fewer than five occurrences come back from
  \<^verbatim>\<open>fetch_occurrences\<close>, the run logs one error and returns: its only event is that log
  record, so the output directory is not created and none of the three files is
  written.
\<close>

theorem too_few_occurrences_abort:
  assumes "get_species_key (lib_match lib) species_name = Inr key"
    and "fetch_occurrences (lib_search lib key bb) = Some (Inr positives)"
    and "length positives < 5"
  shows "run lib species_name bb g = Some ([LogError ''Need at least 5 occurrences''], None)
       \<and> \<not> list_ex writes_output (fst (the (run lib species_name bb g)))"
proof -
  from assms have "run lib species_name bb g
      = Some ([LogError ''Need at least 5 occurrences''], None)"
    by (simp add: run_def run_pipeline_def)
  then show ?thesis by simp
qed

lemma toy_key: "get_species_key (lib_match toy_library) ''Quercus robur'' = Inr 5231"
  by (simp add: get_species_key_def toy_library_def)

lemma toy_lib_fetch:
  "fetch_occurrences (lib_search toy_library 5231 unit_box) = Some (Inr [(1, 52)])"
  by (simp add: toy_library_def toy_fetch)

text \<open>
  A run of claim C6's theorem: the search yields one usable occurrence.
\<close>

theorem too_few_occurrences_abort_witness:
  "get_species_key (lib_match toy_library) ''Quercus robur'' = Inr 5231
   \<and> fetch_occurrences (lib_search toy_library 5231 unit_box) = Some (Inr [(1, 52)])
   \<and> length [(1, 52) :: point] < 5
   \<and> run toy_library ''Quercus robur'' unit_box fresh_rng
       = Some ([LogError ''Need at least 5 occurrences''], None)
   \<and> \<not> list_ex writes_output (fst (the (run toy_library ''Quercus robur'' unit_box fresh_rng)))"
proof -
  have l: "length [(1, 52) :: point] < 5" by simp
  from too_few_occurrences_abort[OF toy_key toy_lib_fetch l, of fresh_rng] toy_key toy_lib_fetch l
  show ?thesis by blast
qed

subsection \<open>Batched prediction\<close>

lemma column1_map:
  assumes "\<forall>x \<in> set xs. 2 \<le> length (f x)"
  shows "column1 (map f xs) = Inr (map (\<lambda>x. f x ! 1) xs)"
  using assms by (simp add: column1_def list_all_iff)

lemma assign_slice_fit:
  "length v = stop - i \<Longrightarrow> assign_slice a i stop v = Inr (take i a @ v @ drop stop a)"
  by (simp add: assign_slice_def)

lemma batches_below:
  assumes "0 < (B::nat)" and "j < (n + B - 1) div B"
  shows "j * B < n"
proof -
  from assms(2) have "Suc j \<le> (n + B - 1) div B" by simp
  with assms(1) have "Suc j * B \<le> n + B - 1" by (simp add: less_eq_div_iff_mult_less_eq)
  then have "j * B + B \<le> n + B - 1" by simp
  with assms(1) show ?thesis by linarith
qed

lemma batches_cover:
  assumes "0 < (B::nat)"
  shows "n \<le> ((n + B - 1) div B) * B"
proof -
  have "n + B - 1 < Suc ((n + B - 1) div B) * B"
    using assms by (metis dividend_less_times_div mult.commute mult_Suc)
  then have "n + B - 1 < ((n + B - 1) div B) * B + B" by simp
  with assms show ?thesis by linarith
qed

lemma predict_step_scores:
  assumes rowwise: "\<forall>ys. predict_proba ys = map f ys"
    and widths: "\<forall>x \<in> set xs. 2 \<le> length (f x)"
    and i: "j * B < length xs"
  shows "predict_step predict_proba xs B (j * B) (partial_scores f xs B j)
           = Inr (partial_scores f xs B (Suc j))"
proof -
  let ?n = "length xs"
  let ?i = "j * B"
  let ?stop = "min (?i + B) ?n"
  let ?g = "\<lambda>x. f x ! 1"
  let ?batch = "take (?stop - ?i) (drop ?i xs)"
  have "set ?batch \<subseteq> set xs" by (meson set_take_subset set_drop_subset subset_trans)
  with widths have "\<forall>x \<in> set ?batch. 2 \<le> length (f x)" by blast
  then have col: "column1 (predict_proba ?batch) = Inr (map ?g ?batch)"
    using rowwise by (simp add: column1_map)
  have len: "length (map ?g ?batch) = ?stop - ?i" using i by simp
  have tk: "take ?i (partial_scores f xs B j) = map ?g (take ?i xs)"
    using i by (simp add: partial_scores_def)
  have dr: "drop ?stop (partial_scores f xs B j) = replicate (?n - (?i + B)) 0"
    using i by (simp add: partial_scores_def min_def)
  have mid: "map ?g (take ?i xs) @ map ?g ?batch = map ?g (take (?i + B) xs)"
  proof -
    have "take ?i xs @ ?batch = take (?i + (?stop - ?i)) xs" by (simp add: take_add)
    also have "\<dots> = take ?stop xs" using i by simp
    also have "\<dots> = take (?i + B) xs" by (simp add: min_def)
    finally show ?thesis by (metis map_append)
  qed
  have "assign_slice (partial_scores f xs B j) ?i ?stop (map ?g ?batch)
          = Inr (take ?i (partial_scores f xs B j) @ map ?g ?batch
                  @ drop ?stop (partial_scores f xs B j))"
    using len by (rule assign_slice_fit)
  also have "take ?i (partial_scores f xs B j) @ map ?g ?batch
                  @ drop ?stop (partial_scores f xs B j)
        = (map ?g (take ?i xs) @ map ?g ?batch) @ replicate (?n - (?i + B)) 0"
    by (simp only: tk dr append_assoc)
  also have "\<dots> = map ?g (take (?i + B) xs) @ replicate (?n - (?i + B)) 0"
    by (simp only: mid)
  also have "\<dots> = partial_scores f xs B (Suc j)"
    by (simp add: partial_scores_def add.commute)
  finally show ?thesis by (simp add: predict_step_def col)
qed

lemma for_loop_scores:
  assumes rowwise: "\<forall>ys. predict_proba ys = map f ys"
    and widths: "\<forall>x \<in> set xs. 2 \<le> length (f x)"
    and below: "\<forall>j < nb. j * B < length xs"
    and j: "j \<le> nb"
  shows "for_loop (predict_step predict_proba xs B) (map (\<lambda>j. j * B) [j..<nb])
           (partial_scores f xs B j) = Inr (partial_scores f xs B nb)"
  using j
proof (induction "nb - j" arbitrary: j)
  case 0
  then show ?case by simp
next
  case (Suc d)
  then have lt: "j < nb" by simp
  then have up: "[j..<nb] = j # [Suc j..<nb]" by (simp add: upt_conv_Cons)
  from below lt have "j * B < length xs" by simp
  with rowwise widths have step: "predict_step predict_proba xs B (j * B) (partial_scores f xs B j)
           = Inr (partial_scores f xs B (Suc j))" by (rule predict_step_scores)
  have "d = nb - Suc j" using Suc.hyps(2) by simp
  moreover have "Suc j \<le> nb" using lt by simp
  ultimately have "for_loop (predict_step predict_proba xs B) (map (\<lambda>j. j * B) [Suc j..<nb])
           (partial_scores f xs B (Suc j)) = Inr (partial_scores f xs B nb)"
    by (rule Suc.hyps(1))
  with step show ?case by (simp add: up)
qed

lemma predict_batched_scores:
  assumes rowwise: "\<forall>ys. predict_proba ys = map f ys"
    and widths: "\<forall>x \<in> set xs. 2 \<le> length (f x)"
    and B: "0 < B"
  shows "predict_batched predict_proba xs B = Inr (map (\<lambda>x. f x ! 1) xs)"
proof -
  let ?nb = "(length xs + B - 1) div B"
  have below: "\<forall>j < ?nb. j * B < length xs" using B by (simp add: batches_below)
  have start: "partial_scores f xs B 0 = replicate (length xs) 0"
    by (simp add: partial_scores_def)
  have finish: "partial_scores f xs B ?nb = map (\<lambda>x. f x ! 1) xs"
    using batches_cover[OF B, of "length xs"] by (simp add: partial_scores_def)
  from for_loop_scores[OF rowwise widths below, of 0]
  have "for_loop (predict_step predict_proba xs B) (map (\<lambda>j. j * B) [0..<?nb])
           (replicate (length xs) 0) = Inr (map (\<lambda>x. f x ! 1) xs)"
    by (simp only: start finish le0)
  with B show ?thesis by (simp add: predict_batched_def range_step_def)
qed

text \<open>
  Claim C4. For a classifier that scores each pixel on its own (its answer to a batch is
  the list of the rows \<open>f x\<close> of the pixels \<open>x\<close> of the batch, each with a second column),
  the prediction loop gives the same probabilities for any two positive batch sizes, and
  they are those of scoring the whole flattened mosaic with one call: the second column
  of every pixel's row, in order.
\<close>

theorem batching_equivalence:
  assumes "\<forall>ys. predict_proba ys = map f ys"
    and "list_all (\<lambda>x. 2 \<le> length (f x)) all_pixels"
    and "0 < B" and "0 < B'"
  shows "predict_batched predict_proba all_pixels B = predict_batched predict_proba all_pixels B'
       \<and> predict_batched predict_proba all_pixels B = predict_at_once predict_proba all_pixels
       \<and> predict_batched predict_proba all_pixels B = Inr (map (\<lambda>x. f x ! 1) all_pixels)"
proof -
  from assms(2) have w: "\<forall>x \<in> set all_pixels. 2 \<le> length (f x)" by (simp add: list_all_iff)
  have b: "predict_batched predict_proba all_pixels B = Inr (map (\<lambda>x. f x ! 1) all_pixels)"
    using assms(1) w assms(3) by (rule predict_batched_scores)
  have b': "predict_batched predict_proba all_pixels B' = Inr (map (\<lambda>x. f x ! 1) all_pixels)"
    using assms(1) w assms(4) by (rule predict_batched_scores)
  have o: "predict_at_once predict_proba all_pixels = Inr (map (\<lambda>x. f x ! 1) all_pixels)"
    using assms(1) w by (simp add: predict_at_once_def column1_map)
  from b b' o show ?thesis by simp
qed

text \<open>
  A run of claim C4's theorem: three pixels, batch sizes 1 and 2.
\<close>

theorem batching_equivalence_witness:
  "(\<forall>ys. toy_predict ys = map toy_scores ys)
   \<and> list_all (\<lambda>x. 2 \<le> length (toy_scores x)) toy_pixels
   \<and> (0::nat) < 1 \<and> (0::nat) < 2
   \<and> predict_batched toy_predict toy_pixels 1 = predict_batched toy_predict toy_pixels 2
   \<and> predict_batched toy_predict toy_pixels 1 = predict_at_once toy_predict toy_pixels
   \<and> predict_batched toy_predict toy_pixels 1 = Inr (map (\<lambda>x. toy_scores x ! 1) toy_pixels)
   \<and> map (\<lambda>x. toy_scores x ! 1) toy_pixels = [1 / 4, 1 / 2, 3 / 4]"
proof -
  have r: "\<forall>ys. toy_predict ys = map toy_scores ys" by (simp add: toy_predict_def)
  have w: "list_all (\<lambda>x. 2 \<le> length (toy_scores x)) toy_pixels"
    by (simp add: toy_scores_def toy_pixels_def)
  have b: "(0::nat) < 1" and b': "(0::nat) < 2" by simp_all
  have v: "map (\<lambda>x. toy_scores x ! 1) toy_pixels = [1 / 4, 1 / 2, 3 / 4]"
    by (simp add: toy_scores_def toy_pixels_def)
  from batching_equivalence[OF r w b b'] r w b b' v show ?thesis by blast
qed

subsection \<open>Candidate extraction\<close>

lemma inner_comprehension:
  "[(x, c). c \<leftarrow> ys, P x c] = filter (\<lambda>(r, c). P r c) (map (Pair x) ys)"
  by (induction ys) auto

lemma comprehension_product:
  "[(r, c). r \<leftarrow> xs, c \<leftarrow> ys, P r c] = filter (\<lambda>(r, c). P r c) (List.product xs ys)"
proof (induction xs)
  case Nil
  show ?case by simp
next
  case (Cons x xs)
  have "filter (\<lambda>(r, c). P r c) (List.product (x # xs) ys)
          = filter (\<lambda>(r, c). P r c) (map (Pair x) ys)
              @ filter (\<lambda>(r, c). P r c) (List.product xs ys)" by simp
  also have "\<dots> = [(x, c). c \<leftarrow> ys, P x c] @ [(r, c). r \<leftarrow> xs, c \<leftarrow> ys, P r c]"
    by (simp only: Cons.IH[symmetric] inner_comprehension[symmetric])
  also have "\<dots> = [(r, c). r \<leftarrow> x # xs, c \<leftarrow> ys, P r c]" by simp
  finally show ?case by (rule sym)
qed

lemma where_ge_product:
  "where_ge probabilities h w thr
     = filter (\<lambda>(row, col). probabilities ! (row * w + col) \<ge> thr)
         (List.product [0..<h] [0..<w])"
  unfolding where_ge_def by (rule comprehension_product)

lemma distinct_where_ge: "distinct (where_ge probabilities h w thr)"
  by (simp add: where_ge_product distinct_product)

lemma where_ge_threshold:
  assumes "cell \<in> set (where_ge probabilities h w thr)"
  shows "probabilities ! (fst cell * w + snd cell) \<ge> thr"
  using assms by (auto simp: where_ge_product)

lemma take_indices_ok:
  assumes "\<forall>i \<in> set idx. i < length cells"
  shows "take_indices cells idx = Inr (map (\<lambda>i. cells ! i) idx)"
  using assms by (simp add: take_indices_def list_all_iff)

lemma picked_distinct:
  assumes "distinct cells" and "distinct idx" and "\<forall>i \<in> set idx. i < length cells"
  shows "distinct (map (\<lambda>i. cells ! i) idx)"
proof -
  have "inj_on (\<lambda>i. cells ! i) (set idx)"
    using assms(1,3) by (auto simp: inj_on_def nth_eq_iff_index_eq)
  with assms(2) show ?thesis by (simp add: distinct_map)
qed

lemma picked_subset:
  assumes "\<forall>i \<in> set idx. i < length cells"
  shows "set (map (\<lambda>i. cells ! i) idx) \<subseteq> set cells"
  using assms by auto

lemma indices_exist:
  assumes "set sel \<subseteq> set cells"
  shows "\<exists>idx. map (\<lambda>i. cells ! i) idx = sel \<and> (\<forall>i \<in> set idx. i < length cells)"
  using assms
proof (induction sel)
  case Nil
  show ?case by simp
next
  case (Cons x sel)
  then obtain idx where idx: "map (\<lambda>i. cells ! i) idx = sel" "\<forall>i \<in> set idx. i < length cells"
    by auto
  from Cons.prems have "x \<in> set cells" by simp
  then obtain i where i: "i < length cells" "cells ! i = x" by (auto simp: in_set_conv_nth)
  with idx have "map (\<lambda>i. cells ! i) (i # idx) = x # sel \<and> (\<forall>k \<in> set (i # idx). k < length cells)"
    by simp
  then show ?case by (rule exI[where x = "i # idx"])
qed

lemma draws_correspond:
  assumes "distinct cells"
  shows "bij_betw (map (\<lambda>i. cells ! i))
           {idx. length idx = k \<and> distinct idx \<and> (\<forall>i \<in> set idx. i < length cells)}
           {sel. length sel = k \<and> distinct sel \<and> set sel \<subseteq> set cells}"
  unfolding bij_betw_def
proof
  show "inj_on (map (\<lambda>i. cells ! i))
          {idx. length idx = k \<and> distinct idx \<and> (\<forall>i \<in> set idx. i < length cells)}"
  proof (rule inj_onI)
    fix a b
    assume a: "a \<in> {idx. length idx = k \<and> distinct idx \<and> (\<forall>i \<in> set idx. i < length cells)}"
      and b: "b \<in> {idx. length idx = k \<and> distinct idx \<and> (\<forall>i \<in> set idx. i < length cells)}"
      and eq: "map (\<lambda>i. cells ! i) a = map (\<lambda>i. cells ! i) b"
    have "inj_on (\<lambda>i. cells ! i) (set a \<union> set b)"
      using a b assms by (auto simp: inj_on_def nth_eq_iff_index_eq)
    with eq show "a = b" by (simp add: inj_on_map_eq_map)
  qed
next
  show "map (\<lambda>i. cells ! i)
          ` {idx. length idx = k \<and> distinct idx \<and> (\<forall>i \<in> set idx. i < length cells)}
        = {sel. length sel = k \<and> distinct sel \<and> set sel \<subseteq> set cells}"
  proof (intro equalityI subsetI)
    fix sel
    assume "sel \<in> map (\<lambda>i. cells ! i)
          ` {idx. length idx = k \<and> distinct idx \<and> (\<forall>i \<in> set idx. i < length cells)}"
    then obtain idx where idx: "sel = map (\<lambda>i. cells ! i) idx" "length idx = k" "distinct idx"
      "\<forall>i \<in> set idx. i < length cells" by auto
    from picked_distinct[OF assms idx(3,4)] picked_subset[OF idx(4)] idx(1,2)
    show "sel \<in> {sel. length sel = k \<and> distinct sel \<and> set sel \<subseteq> set cells}" by simp
  next
    fix sel
    assume "sel \<in> {sel. length sel = k \<and> distinct sel \<and> set sel \<subseteq> set cells}"
    then have sel: "length sel = k" "distinct sel" "set sel \<subseteq> set cells" by auto
    from indices_exist[OF sel(3)] obtain idx where
      idx: "map (\<lambda>i. cells ! i) idx = sel" "\<forall>i \<in> set idx. i < length cells" by blast
    from idx(1) sel(1) have "length idx = k" by auto
    moreover from idx(1) sel(2) have "distinct idx" by (auto simp: distinct_map)
    ultimately show "sel \<in> map (\<lambda>i. cells ! i)
          ` {idx. length idx = k \<and> distinct idx \<and> (\<forall>i \<in> set idx. i < length cells)}"
      using idx by (intro image_eqI[where x = idx]) auto
  qed
qed

lemma select_cells_small:
  assumes "length (where_ge probs h w (6 / 10)) \<le> 5000"
  shows "select_cells choice probs h w = Inr (where_ge probs h w (6 / 10))"
  using assms by (simp add: select_cells_def)

lemma select_cells_large:
  assumes "length (where_ge probs h w (6 / 10)) > 5000"
    and "\<forall>i \<in> set (choice (length (where_ge probs h w (6 / 10))) 5000).
           i < length (where_ge probs h w (6 / 10))"
  shows "select_cells choice probs h w
           = Inr (map (\<lambda>i. where_ge probs h w (6 / 10) ! i)
                    (choice (length (where_ge probs h w (6 / 10))) 5000))"
  using assms(1) take_indices_ok[OF assms(2)] by (simp add: select_cells_def)

lemma features_above:
  assumes "set cells \<subseteq> set (where_ge probs h w thr)"
  shows "list_all (\<lambda>f. probability f \<ge> thr)
           (sort_key probability (map (make_feature t probs w) cells))"
proof -
  have "\<forall>f \<in> set (map (make_feature t probs w) cells). probability f \<ge> thr"
    using assms by (auto simp: make_feature_def dest: where_ge_threshold)
  then show ?thesis by (simp add: list_all_iff)
qed

lemma run_pipeline_candidates:
  assumes "run_pipeline lib species_name key bb positives g = (evs, r)"
    and "WriteCandidatesGeojson cands md \<in> set evs"
  shows "\<exists>g' t probs h w. extract_candidates (lib_choice lib g') t probs h w = Inr cands"
  using assms
  by (auto simp: run_pipeline_def split: if_splits sum.splits prod.splits) blast

text \<open>
  Claim C2. Let \<^verbatim>\<open>np.random.choice(n, 5000, replace=False)\<close> return 5000 distinct
  indices below \<open>n\<close>, as numpy does. Then the candidate extraction succeeds; the
  collection it hands to \<^verbatim>\<open>candidates.geojson\<close> has at most 5000 features, each of
  probability at least 0.6; its cells are distinct cells that meet the threshold, all of
  them when no more than 5000 do. When more than 5000 do, the cells are the 5000
  qualifying cells at the drawn indices; draws of 5000 distinct indices and selections
  of 5000 distinct qualifying cells correspond one to one, so that a uniform draw of
  indices without replacement is a uniform subsample of the cells without replacement.
\<close>

theorem candidates_capped:
  assumes "without_replacement choice"
  shows "\<exists>cells cands.
           select_cells choice probs h w = Inr cells
         \<and> extract_candidates choice t probs h w = Inr cands
         \<and> cands = sort_key probability (map (make_feature t probs w) cells)
         \<and> length cands \<le> 5000
         \<and> list_all (\<lambda>f. probability f \<ge> 6 / 10) cands
         \<and> distinct cells
         \<and> set cells \<subseteq> set (where_ge probs h w (6 / 10))
         \<and> (length (where_ge probs h w (6 / 10)) \<le> 5000 \<longrightarrow> cells = where_ge probs h w (6 / 10))
         \<and> (length (where_ge probs h w (6 / 10)) > 5000 \<longrightarrow>
              length cells = 5000
              \<and> cells = map (\<lambda>i. where_ge probs h w (6 / 10) ! i)
                          (choice (length (where_ge probs h w (6 / 10))) 5000)
              \<and> bij_betw (map (\<lambda>i. where_ge probs h w (6 / 10) ! i))
                  {idx. length idx = 5000 \<and> distinct idx
                        \<and> (\<forall>i \<in> set idx. i < length (where_ge probs h w (6 / 10)))}
                  {sel. length sel = 5000 \<and> distinct sel
                        \<and> set sel \<subseteq> set (where_ge probs h w (6 / 10))})"
proof -
  let ?Q = "where_ge probs h w (6 / 10)"
  have dQ: "distinct ?Q" by (rule distinct_where_ge)
  have bij: "bij_betw (map (\<lambda>i. ?Q ! i))
                  {idx. length idx = 5000 \<and> distinct idx \<and> (\<forall>i \<in> set idx. i < length ?Q)}
                  {sel. length sel = 5000 \<and> distinct sel \<and> set sel \<subseteq> set ?Q}"
    using dQ by (rule draws_correspond)
  show ?thesis
  proof (cases "length ?Q > 5000")
    case False
    then have small: "length ?Q \<le> 5000" by simp
    let ?cands = "sort_key probability (map (make_feature t probs w) ?Q)"
    have s: "select_cells choice probs h w = Inr ?Q" using small by (rule select_cells_small)
    have e: "extract_candidates choice t probs h w = Inr ?cands"
      by (simp add: extract_candidates_def s)
    have l: "length ?cands \<le> 5000" using small by simp
    have a: "list_all (\<lambda>f. probability f \<ge> 6 / 10) ?cands"
      using subset_refl by (rule features_above)
    from s e l a dQ False show ?thesis by blast
  next
    case True
    let ?idx = "choice (length ?Q) 5000"
    let ?cells = "map (\<lambda>i. ?Q ! i) ?idx"
    let ?cands = "sort_key probability (map (make_feature t probs w) ?cells)"
    from assms True have c: "length ?idx = 5000" "distinct ?idx" "\<forall>i \<in> set ?idx. i < length ?Q"
      unfolding without_replacement_def by blast+
    have s: "select_cells choice probs h w = Inr ?cells" using True c(3) by (rule select_cells_large)
    have e: "extract_candidates choice t probs h w = Inr ?cands"
      by (simp add: extract_candidates_def s)
    have lc: "length ?cells = 5000" using c(1) by simp
    then have l: "length ?cands \<le> 5000" by simp
    have sub: "set ?cells \<subseteq> set ?Q" using c(3) by (rule picked_subset)
    have a: "list_all (\<lambda>f. probability f \<ge> 6 / 10) ?cands" using sub by (rule features_above)
    have d: "distinct ?cells" using dQ c(2,3) by (rule picked_distinct)
    from s e l a d sub lc bij True show ?thesis by (intro exI[of _ ?cells] exI[of _ ?cands]) simp
  qed
qed

lemma first_indices_ok: "without_replacement first_indices"
  by (simp add: without_replacement_def first_indices_def)

lemma wide_raster_cells: "length (where_ge wide_raster 1 5001 (6 / 10)) = 5001"
proof -
  have "\<forall>cell \<in> set (List.product [0..<1] [0..<5001]).
          (case cell of (row, col) \<Rightarrow> wide_raster ! (row * 5001 + col) \<ge> 6 / 10)"
    by (auto simp: wide_raster_def)
  then have "where_ge wide_raster 1 5001 (6 / 10) = List.product [0..<1] [0..<5001]"
    by (simp only: where_ge_product filter_True)
  then show ?thesis by (simp only: length_product length_upt) simp
qed

text \<open>
  A run of claim C2's theorem: 5001 cells meet the threshold and 5000 are retained.
\<close>

theorem candidates_capped_witness:
  "without_replacement first_indices
   \<and> length (where_ge wide_raster 1 5001 (6 / 10)) > 5000
   \<and> (\<exists>cells cands.
         select_cells first_indices wide_raster 1 5001 = Inr cells
       \<and> extract_candidates first_indices toy_transform wide_raster 1 5001 = Inr cands
       \<and> length cands \<le> 5000
       \<and> list_all (\<lambda>f. probability f \<ge> 6 / 10) cands
       \<and> distinct cells \<and> length cells = 5000
       \<and> set cells \<subseteq> set (where_ge wide_raster 1 5001 (6 / 10)))"
proof -
  have big: "length (where_ge wide_raster 1 5001 (6 / 10)) > 5000"
    by (simp only: wide_raster_cells)
  from candidates_capped[where choice = first_indices and probs = wide_raster and h = 1
         and w = 5001 and t = toy_transform, OF first_indices_ok]
  obtain cells cands where
    "select_cells first_indices wide_raster 1 5001 = Inr cells"
    "extract_candidates first_indices toy_transform wide_raster 1 5001 = Inr cands"
    "length cands \<le> 5000"
    "list_all (\<lambda>f. probability f \<ge> 6 / 10) cands"
    "distinct cells"
    "set cells \<subseteq> set (where_ge wide_raster 1 5001 (6 / 10))"
    "length (where_ge wide_raster 1 5001 (6 / 10)) > 5000 \<longrightarrow> length cells = 5000"
    by blast
  with big first_indices_ok show ?thesis by blast
qed

end
